theory Spec2Isabelle
  imports Complex_Main
begin

section \<open>Vector and geometry primitives (control.h)\<close>

text \<open>
  The C++ type \<^verbatim>\<open>double\<close> is read as \<^typ>\<open>real\<close>: every operation is exact, and
  there is no NaN, no infinity and no rounding. The statements about the control law and
  the collision pass are about this exact-arithmetic reading of the code; they say which
  branch the code takes and which expression it stores, not what rounding makes of a
  bound. The bounds of the PID controller are stated on machine values instead, in a
  section of their own. No division of the code is reached with a zero divisor
  (\<^verbatim>\<open>normalized\<close>, \<^verbatim>\<open>clampMagnitude\<close> and \<^verbatim>\<open>calculate\<close> guard theirs).

  \<^verbatim>\<open>struct Vec3 { double x, y, z; }\<close>: the selectors are named \<open>vx\<close>, \<open>vy\<close>, \<open>vz\<close>,
  since \<open>x\<close>, \<open>y\<close>, \<open>z\<close> are needed as variable names.
\<close>

datatype Vec3 = Vec3 (vx: real) (vy: real) (vz: real)

text \<open>\<^verbatim>\<open>operator+\<close>, \<^verbatim>\<open>operator-\<close>, \<^verbatim>\<open>operator*(double)\<close>, \<^verbatim>\<open>operator/(double)\<close>.\<close>

definition vadd :: "Vec3 \<Rightarrow> Vec3 \<Rightarrow> Vec3" where
  "vadd a o' = Vec3 (vx a + vx o') (vy a + vy o') (vz a + vz o')"

definition vsub :: "Vec3 \<Rightarrow> Vec3 \<Rightarrow> Vec3" where
  "vsub a o' = Vec3 (vx a - vx o') (vy a - vy o') (vz a - vz o')"

definition smul :: "Vec3 \<Rightarrow> real \<Rightarrow> Vec3" where
  "smul a s = Vec3 (vx a * s) (vy a * s) (vz a * s)"

definition sdiv :: "Vec3 \<Rightarrow> real \<Rightarrow> Vec3" where
  "sdiv a s = Vec3 (vx a / s) (vy a / s) (vz a / s)"

definition dot :: "Vec3 \<Rightarrow> Vec3 \<Rightarrow> real" where
  "dot a o' = vx a * vx o' + vy a * vy o' + vz a * vz o'"

definition mag :: "Vec3 \<Rightarrow> real" where
  "mag a = sqrt (vx a * vx a + vy a * vy a + vz a * vz a)"

definition normalized :: "Vec3 \<Rightarrow> Vec3" where
  "normalized a = (let m = mag a in if m < 1 / 10 ^ 8 then Vec3 0 0 0 else sdiv a m)"

definition distance :: "Vec3 \<Rightarrow> Vec3 \<Rightarrow> real" where
  "distance a b = mag (vsub a b)"

section \<open>PID controller (control.h)\<close>

text \<open>
  \<^verbatim>\<open>std::clamp(v, lo, hi)\<close>: \<open>lo\<close> if \<open>v < lo\<close>, \<open>hi\<close> if \<open>hi < v\<close>, otherwise \<open>v\<close>.
  The C++ standard requires \<open>lo \<le> hi\<close>; the controller calls it with \<open>lo = -limit\<close> and
  \<open>hi = limit\<close>, so the requirement is \<open>0 \<le> limit\<close>.
\<close>

definition clamp :: "real \<Rightarrow> real \<Rightarrow> real \<Rightarrow> real" where
  "clamp v lo hi = (if v < lo then lo else if hi < v then hi else v)"

record PIDController =
  kp :: real
  ki :: real
  kd :: real
  integral :: real
  prev_error :: real
  integral_limit :: real
  output_limit :: real

text \<open>The constructor: gains and limits as given, \<open>integral\<close> and \<open>prev_error\<close> zero.\<close>

definition PIDController :: "real \<Rightarrow> real \<Rightarrow> real \<Rightarrow> real \<Rightarrow> real \<Rightarrow> PIDController" where
  "PIDController kp' ki' kd' integral_limit' output_limit' =
     \<lparr>kp = kp', ki = ki', kd = kd', integral = 0, prev_error = 0,
      integral_limit = integral_limit', output_limit = output_limit'\<rparr>"

definition setGains :: "PIDController \<Rightarrow> real \<Rightarrow> real \<Rightarrow> real \<Rightarrow> PIDController" where
  "setGains pid p i d = pid\<lparr>kp := p, ki := i, kd := d\<rparr>"

text \<open>\<^verbatim>\<open>calculate\<close> returns its output together with the updated controller.\<close>

definition calculate :: "PIDController \<Rightarrow> real \<Rightarrow> real \<Rightarrow> real \<times> PIDController" where
  "calculate pid error dt =
     (if dt \<le> 0 then (0, pid)
      else
        let p_term = kp pid * error;
            integral1 = integral pid + error * dt;
            integral2 = clamp integral1 (- integral_limit pid) (integral_limit pid);
            i_term = ki pid * integral2;
            derivative = (error - prev_error pid) / dt;
            d_term = kd pid * derivative;
            out = p_term + i_term + d_term;
            out' = clamp out (- output_limit pid) (output_limit pid)
        in (out', pid\<lparr>integral := integral2, prev_error := error\<rparr>))"

definition reset :: "PIDController \<Rightarrow> PIDController" where
  "reset pid = pid\<lparr>integral := 0, prev_error := 0\<rparr>"

section \<open>PID controller on machine doubles (control.h)\<close>

text \<open>
  A double is a finite number, one of the two infinities, or NaN. (Every finite double is
  a \<open>Finite\<close> value; a statement about all \<open>Finite\<close> values covers them.)
\<close>

datatype double = Finite real | PlusInf | MinusInf | NaN

text \<open>
  \<^verbatim>\<open>operator<\<close> and \<^verbatim>\<open>operator<=\<close> on doubles, as IEEE 754 defines them: every
  comparison with NaN is false. Unary minus is exact.
\<close>

fun dless :: "double \<Rightarrow> double \<Rightarrow> bool" where
  "dless NaN y = False"
| "dless x NaN = False"
| "dless (Finite a) (Finite b) = (a < b)"
| "dless (Finite a) PlusInf = True"
| "dless (Finite a) MinusInf = False"
| "dless PlusInf y = False"
| "dless MinusInf (Finite b) = True"
| "dless MinusInf PlusInf = True"
| "dless MinusInf MinusInf = False"

fun dle :: "double \<Rightarrow> double \<Rightarrow> bool" where
  "dle NaN y = False"
| "dle x NaN = False"
| "dle (Finite a) (Finite b) = (a \<le> b)"
| "dle (Finite a) PlusInf = True"
| "dle (Finite a) MinusInf = False"
| "dle PlusInf PlusInf = True"
| "dle PlusInf y = False"
| "dle MinusInf y = True"

fun dneg :: "double \<Rightarrow> double" where
  "dneg (Finite a) = Finite (- a)"
| "dneg PlusInf = MinusInf"
| "dneg MinusInf = PlusInf"
| "dneg NaN = NaN"

text \<open>
  The four rounded operations of the machine are a parameter: the theorems about machine
  values hold whatever these operations round to, overflow to or propagate.
\<close>

record arith =
  fadd :: "double \<Rightarrow> double \<Rightarrow> double"
  fsub :: "double \<Rightarrow> double \<Rightarrow> double"
  fmul :: "double \<Rightarrow> double \<Rightarrow> double"
  fdiv :: "double \<Rightarrow> double \<Rightarrow> double"

text \<open>\<^verbatim>\<open>std::clamp\<close> on doubles: a NaN argument \<open>v\<close> fails both tests and is returned.\<close>

definition dclamp :: "double \<Rightarrow> double \<Rightarrow> double \<Rightarrow> double" where
  "dclamp v lo hi = (if dless v lo then lo else if dless hi v then hi else v)"

text \<open>
  \<^verbatim>\<open>class PIDController\<close> once more (control.h, lines 47-97), on machine values; the
  names carry the suffix \<open>_m\<close>.
\<close>

record PIDMachine =
  kp_m :: double
  ki_m :: double
  kd_m :: double
  integral_m :: double
  prev_error_m :: double
  integral_limit_m :: double
  output_limit_m :: double

definition PIDController_m :: "double \<Rightarrow> double \<Rightarrow> double \<Rightarrow> double \<Rightarrow> double \<Rightarrow> PIDMachine" where
  "PIDController_m kp' ki' kd' integral_limit' output_limit' =
     \<lparr>kp_m = kp', ki_m = ki', kd_m = kd', integral_m = Finite 0, prev_error_m = Finite 0,
      integral_limit_m = integral_limit', output_limit_m = output_limit'\<rparr>"

definition setGains_m :: "PIDMachine \<Rightarrow> double \<Rightarrow> double \<Rightarrow> double \<Rightarrow> PIDMachine" where
  "setGains_m pid p i d = pid\<lparr>kp_m := p, ki_m := i, kd_m := d\<rparr>"

definition calculate_m :: "arith \<Rightarrow> PIDMachine \<Rightarrow> double \<Rightarrow> double \<Rightarrow> double \<times> PIDMachine" where
  "calculate_m ar pid error dt =
     (if dle dt (Finite 0) then (Finite 0, pid)
      else
        let p_term = fmul ar (kp_m pid) error;
            integral1 = fadd ar (integral_m pid) (fmul ar error dt);
            integral2 = dclamp integral1 (dneg (integral_limit_m pid)) (integral_limit_m pid);
            i_term = fmul ar (ki_m pid) integral2;
            derivative = fdiv ar (fsub ar error (prev_error_m pid)) dt;
            d_term = fmul ar (kd_m pid) derivative;
            out = fadd ar (fadd ar p_term i_term) d_term;
            out' = dclamp out (dneg (output_limit_m pid)) (output_limit_m pid)
        in (out', pid\<lparr>integral_m := integral2, prev_error_m := error\<rparr>))"

definition reset_m :: "PIDMachine \<Rightarrow> PIDMachine" where
  "reset_m pid = pid\<lparr>integral_m := Finite 0, prev_error_m := Finite 0\<rparr>"

text \<open>
  The calls a client can make on a controller, and a run of them: the value returned (if
  the call was a \<^verbatim>\<open>calculate\<close>) and the controller after each call.
\<close>

datatype PIDCall = Calculate double double | Reset | SetGains double double double

fun applyCall :: "arith \<Rightarrow> PIDMachine \<Rightarrow> PIDCall \<Rightarrow> double option \<times> PIDMachine" where
  "applyCall ar pid (Calculate error dt) =
     (let (out, pid') = calculate_m ar pid error dt in (Some out, pid'))"
| "applyCall ar pid Reset = (None, reset_m pid)"
| "applyCall ar pid (SetGains p i d) = (None, setGains_m pid p i d)"

fun runPID :: "arith \<Rightarrow> PIDMachine \<Rightarrow> PIDCall list \<Rightarrow> (double option \<times> PIDMachine) list" where
  "runPID ar pid [] = []"
| "runPID ar pid (c # cs) = (let r = applyCall ar pid c in r # runPID ar (snd r) cs)"

text \<open>
  \<open>inLimit y limit\<close>: \<open>y\<close> lies within \<open>[-limit, +limit]\<close>. \<open>claimedLimits\<close> is what is
  claimed of one step of a run: the integral accumulator within its limit and the value
  returned within the output limit. \<open>limitsOrNaN\<close> allows each of the two to be NaN.
\<close>

definition inLimit :: "double \<Rightarrow> double \<Rightarrow> bool" where
  "inLimit y limit = (dle (dneg limit) y \<and> dle y limit)"

definition claimedLimits :: "double option \<times> PIDMachine \<Rightarrow> bool" where
  "claimedLimits r =
     (case r of (out, pid) \<Rightarrow>
        inLimit (integral_m pid) (integral_limit_m pid) \<and>
        (case out of None \<Rightarrow> True | Some y \<Rightarrow> inLimit y (output_limit_m pid)))"

definition limitsOrNaN :: "double option \<times> PIDMachine \<Rightarrow> bool" where
  "limitsOrNaN r =
     (case r of (out, pid) \<Rightarrow>
        (integral_m pid = NaN \<or> inLimit (integral_m pid) (integral_limit_m pid)) \<and>
        (case out of None \<Rightarrow> True
         | Some y \<Rightarrow> y = NaN \<or> inLimit y (output_limit_m pid)))"

text \<open>
  An arithmetic to run examples with: the special values as IEEE 754 has them (NaN
  propagates; \<open>inf - inf\<close>, \<open>0 * inf\<close>, \<open>0 / 0\<close> and \<open>inf / inf\<close> are NaN), a finite
  result of magnitude \<open>2^1024 - 2^970\<close> or more becomes an infinity as rounding to
  nearest makes it, and a smaller finite result is kept exact: neither its rounding nor
  the sign of a zero is modelled.
\<close>

definition overflowBound :: real where
  "overflowBound = 2 ^ 1024 - 2 ^ 970"

definition overflow :: "real \<Rightarrow> double" where
  "overflow r =
     (if overflowBound \<le> r then PlusInf else if r \<le> - overflowBound then MinusInf else Finite r)"

fun uadd :: "double \<Rightarrow> double \<Rightarrow> double" where
  "uadd NaN y = NaN"
| "uadd x NaN = NaN"
| "uadd (Finite a) (Finite b) = overflow (a + b)"
| "uadd PlusInf MinusInf = NaN"
| "uadd MinusInf PlusInf = NaN"
| "uadd PlusInf y = PlusInf"
| "uadd MinusInf y = MinusInf"
| "uadd (Finite a) y = y"

definition usub :: "double \<Rightarrow> double \<Rightarrow> double" where
  "usub x y = uadd x (dneg y)"

fun umul :: "double \<Rightarrow> double \<Rightarrow> double" where
  "umul NaN y = NaN"
| "umul x NaN = NaN"
| "umul (Finite a) (Finite b) = overflow (a * b)"
| "umul x y =
     (if x = Finite 0 \<or> y = Finite 0 then NaN
      else if dless (Finite 0) x = dless (Finite 0) y then PlusInf else MinusInf)"

fun udiv :: "double \<Rightarrow> double \<Rightarrow> double" where
  "udiv NaN y = NaN"
| "udiv x NaN = NaN"
| "udiv (Finite a) (Finite b) =
     (if b = 0 then (if a = 0 then NaN else if 0 < a then PlusInf else MinusInf)
      else overflow (a / b))"
| "udiv (Finite a) y = Finite 0"
| "udiv x (Finite b) = (if dless (Finite 0) x = (0 \<le> b) then PlusInf else MinusInf)"
| "udiv x y = NaN"

definition unroundedArith :: arith where
  "unroundedArith = \<lparr>fadd = uadd, fsub = usub, fmul = umul, fdiv = udiv\<rparr>"

section \<open>Control law: the phase state machine (control.h)\<close>

datatype Phase = GroundWait | ClimbToCenter | OnSphere

text \<open>The position of a phase in the order of the enumeration.\<close>

fun phaseRank :: "Phase \<Rightarrow> nat" where
  "phaseRank GroundWait = 0"
| "phaseRank ClimbToCenter = 1"
| "phaseRank OnSphere = 2"

record ControlConfig =
  center :: Vec3
  sphereRadius :: real
  groundWait :: real
  maxForce :: real
  minSpeed :: real
  maxSpeed :: real

text \<open>The default member initialisers of \<^verbatim>\<open>ControlConfig\<close> and \<^verbatim>\<open>ControlState\<close>.\<close>

definition defaultConfig :: ControlConfig where
  "defaultConfig =
     \<lparr>center = Vec3 0 0 50, sphereRadius = 10, groundWait = 5, maxForce = 20,
      minSpeed = 2, maxSpeed = 10\<rparr>"

record ControlState =
  phase :: Phase
  timeInPhase :: real
  visitedCenter :: bool
  tangentialDir :: Vec3

definition initialState :: ControlState where
  "initialState =
     \<lparr>phase = GroundWait, timeInPhase = 0, visitedCenter = False, tangentialDir = Vec3 1 0 0\<rparr>"

record ControlPIDs =
  radialPID :: PIDController
  speedPID :: PIDController

text \<open>A default-constructed \<^verbatim>\<open>ControlPIDs\<close>: two \<^verbatim>\<open>PIDController()\<close>.\<close>

definition defaultPIDs :: ControlPIDs where
  "defaultPIDs = \<lparr>radialPID = PIDController 0 0 0 100 100, speedPID = PIDController 0 0 0 100 100\<rparr>"

text \<open>The gains the \<^verbatim>\<open>UAV\<close> constructor installs (simulation.cpp, lines 25-26).\<close>

definition uavPIDs :: ControlPIDs where
  "uavPIDs =
     \<lparr>radialPID = PIDController 5 1 (1/2) 100 20, speedPID = PIDController (8/10) 0 10 100 10\<rparr>"

definition clampMagnitude :: "Vec3 \<Rightarrow> real \<Rightarrow> Vec3" where
  "clampMagnitude v maxMag =
     (let m = mag v in if m \<le> maxMag \<or> m < 1 / 10 ^ 8 then v else smul v (maxMag / m))"

text \<open>
  \<^verbatim>\<open>computeControlForce\<close> is modelled block by block. The state and the controllers,
  which the C++ mutates through references, are passed in and returned.

  Lines 163-175, the \<^verbatim>\<open>GroundWait\<close> block, run after \<^verbatim>\<open>timeInPhase += dt\<close>:
  \<open>None\<close> is the early \<^verbatim>\<open>return Vec3(0, 0, 0)\<close>, \<open>Some\<close> the state the function goes on with.
\<close>

definition groundWaitBlock :: "ControlState \<Rightarrow> ControlConfig \<Rightarrow> ControlState option" where
  "groundWaitBlock state cfg =
     (if phase state = GroundWait then
        (if timeInPhase state \<ge> groundWait cfg
         then Some (state\<lparr>phase := ClimbToCenter, timeInPhase := 0\<rparr>)
         else None)
      else Some state)"

text \<open>Lines 177-188, the arrival test of \<^verbatim>\<open>ClimbToCenter\<close>.\<close>

definition arrivalBlock ::
  "Vec3 \<Rightarrow> ControlState \<Rightarrow> ControlPIDs \<Rightarrow> ControlConfig \<Rightarrow> ControlState \<times> ControlPIDs" where
  "arrivalBlock pos state pids cfg =
     (if phase state = ClimbToCenter then
        (let dCenter = distance pos (center cfg) in
         if dCenter < 2
         then (state\<lparr>phase := OnSphere, timeInPhase := 0, visitedCenter := True\<rparr>,
               pids\<lparr>radialPID := reset (radialPID pids), speedPID := reset (speedPID pids)\<rparr>)
         else (state, pids))
      else (state, pids))"

text \<open>
  Lines 197-207, the \<^verbatim>\<open>ClimbToCenter\<close> branch up to its \<^verbatim>\<open>return\<close>: the force
  before clamping, and the controllers. \<open>r\<close> and \<open>radialDir\<close> are the shared geometry of
  lines 191-193.
\<close>

definition climbForce ::
  "real \<Rightarrow> Vec3 \<Rightarrow> Vec3 \<Rightarrow> ControlPIDs \<Rightarrow> real \<Rightarrow> Vec3 \<times> ControlPIDs" where
  "climbForce r radialDir vel pids dt =
     (let radialError = r;
          (radialAccel, radial') = calculate (radialPID pids) radialError dt;
          force = smul radialDir radialAccel;
          speed = mag vel;
          force' = (if speed > 2
                    then vsub force (smul (normalized vel) (0.5 * (speed - 2)))
                    else force)
      in (force', pids\<lparr>radialPID := radial'\<rparr>))"

text \<open>
  Lines 214-237, the \<^verbatim>\<open>OnSphere\<close> code up to its \<^verbatim>\<open>return\<close>: the total force before
  clamping, the state (with the tangential direction stored) and the controllers.
\<close>

definition sphereForce ::
  "real \<Rightarrow> Vec3 \<Rightarrow> Vec3 \<Rightarrow> ControlState \<Rightarrow> ControlPIDs \<Rightarrow> ControlConfig \<Rightarrow> real
   \<Rightarrow> Vec3 \<times> ControlState \<times> ControlPIDs" where
  "sphereForce r radialDir vel state pids cfg dt =
     (let radialError = r - sphereRadius cfg;
          (radialOut, radial') = calculate (radialPID pids) radialError dt;
          radialForce = smul radialDir (- radialOut);
          worldUp = Vec3 0 0 1;
          tangent = Vec3 (vy radialDir * vz worldUp - vz radialDir * vy worldUp)
                         (vz radialDir * vx worldUp - vx radialDir * vz worldUp)
                         (vx radialDir * vy worldUp - vy radialDir * vx worldUp);
          tangent' = (if mag tangent < 1 / 10 ^ 3 then Vec3 1 0 0 else tangent);
          tangent'' = normalized tangent';
          speed = mag vel;
          targetSpeed = 0.5 * (minSpeed cfg + maxSpeed cfg);
          speedError = targetSpeed - speed;
          (speedOut, speed') = calculate (speedPID pids) speedError dt;
          tangentialForce = smul tangent'' speedOut;
          totalForce = vadd radialForce tangentialForce
      in (totalForce, state\<lparr>tangentialDir := tangent''\<rparr>,
          pids\<lparr>radialPID := radial', speedPID := speed'\<rparr>))"


text \<open>
  \<^verbatim>\<open>computeControlForce\<close>, lines 151-241: the returned force, and the state and the
  controllers as the call leaves them.
\<close>

definition computeControlForce ::
  "Vec3 \<Rightarrow> Vec3 \<Rightarrow> ControlState \<Rightarrow> ControlPIDs \<Rightarrow> ControlConfig \<Rightarrow> real
   \<Rightarrow> Vec3 \<times> ControlState \<times> ControlPIDs" where
  "computeControlForce pos vel state pids cfg dt =
     (let state1 = state\<lparr>timeInPhase := timeInPhase state + dt\<rparr> in
      case groundWaitBlock state1 cfg of
        None \<Rightarrow> (Vec3 0 0 0, state1, pids)
      | Some state2 \<Rightarrow>
          (let (state3, pids3) = arrivalBlock pos state2 pids cfg;
               toCenter = vsub (center cfg) pos;
               r = mag toCenter;
               radialDir = normalized toCenter
           in if phase state3 = ClimbToCenter then
                (let (force, pids4) = climbForce r radialDir vel pids3 dt
                 in (clampMagnitude force (maxForce cfg), state3, pids4))
              else
                (let (totalForce, state4, pids4) = sphereForce r radialDir vel state3 pids3 cfg dt
                 in (clampMagnitude totalForce (maxForce cfg), state4, pids4))))"

text \<open>
  A run of calls on one agent's control state: each call has its own position, velocity,
  configuration and time step, and works on the state and controllers the call before
  left. The result lists, call by call, the state before the call, the force returned and
  the state and controllers after it.
\<close>

type_synonym ControlCall = "Vec3 \<times> Vec3 \<times> ControlConfig \<times> real"

fun runControl ::
  "ControlState \<Rightarrow> ControlPIDs \<Rightarrow> ControlCall list
   \<Rightarrow> (ControlState \<times> Vec3 \<times> ControlState \<times> ControlPIDs) list" where
  "runControl state pids [] = []"
| "runControl state pids ((pos, vel, cfg, dt) # calls) =
     (case computeControlForce pos vel state pids cfg dt of
        (force, state', pids') \<Rightarrow> (state, force, state', pids') # runControl state' pids' calls)"

text \<open>The phases observed after each call of a run.\<close>

definition observedPhases :: "ControlState \<Rightarrow> ControlPIDs \<Rightarrow> ControlCall list \<Rightarrow> Phase list" where
  "observedPhases state pids calls = map (\<lambda>(s, f, s', p). phase s') (runControl state pids calls)"

text \<open>
  A list of calls keeps an agent waiting on the ground when, call after call, the
  incremented \<open>timeInPhase\<close> is still below the \<open>groundWait\<close> of the call. \<open>elapsed\<close> is
  the time the calls add up to.
\<close>

fun stillWaiting :: "ControlState \<Rightarrow> ControlCall list \<Rightarrow> bool" where
  "stillWaiting state [] = True"
| "stillWaiting state ((pos, vel, cfg, dt) # calls) =
     (timeInPhase state + dt < groundWait cfg \<and>
      stillWaiting (state\<lparr>timeInPhase := timeInPhase state + dt\<rparr>) calls)"

definition elapsed :: "ControlCall list \<Rightarrow> real" where
  "elapsed calls = sum_list (map (\<lambda>(pos, vel, cfg, dt). dt) calls)"

text \<open>A step of a run in which the agent leaves \<^verbatim>\<open>GroundWait\<close>.\<close>

definition leavesGroundWait :: "ControlState \<times> Vec3 \<times> ControlState \<times> ControlPIDs \<Rightarrow> bool" where
  "leavesGroundWait e = (case e of (s, f, s', p) \<Rightarrow> phase s = GroundWait \<and> phase s' \<noteq> GroundWait)"

section \<open>Swarm collision pass (simulation.cpp)\<close>

text \<open>
  The data members of \<^verbatim>\<open>class UAV\<close> (simulation.h); the mutex, the worker thread and
  the \<^verbatim>\<open>running\<close> flag are left out: the pass is modelled as one sequential run, each
  \<^verbatim>\<open>getSnapshot\<close> and \<^verbatim>\<open>setVelocity\<close> being atomic as the lock makes them. The
  snapshot's third field is named \<open>acc_s\<close>, \<open>acc\<close> being a constant of HOL.
\<close>

record UAV =
  position :: Vec3
  velocity :: Vec3
  acceleration :: Vec3
  cfg :: ControlConfig
  ctrlState :: ControlState
  pids :: ControlPIDs

record Snapshot =
  pos :: Vec3
  vel :: Vec3
  acc_s :: Vec3

text \<open>The constructor (simulation.cpp, lines 19-27): at rest at \<open>startPos\<close>.\<close>

definition UAV :: "Vec3 \<Rightarrow> ControlConfig \<Rightarrow> UAV" where
  "UAV startPos cfg' =
     \<lparr>position = startPos, velocity = Vec3 0 0 0, acceleration = Vec3 0 0 0,
      cfg = cfg', ctrlState = initialState, pids = uavPIDs\<rparr>"

definition getSnapshot :: "UAV \<Rightarrow> Snapshot" where
  "getSnapshot u = \<lparr>pos = position u, vel = velocity u, acc_s = acceleration u\<rparr>"

definition setVelocity :: "UAV \<Rightarrow> Vec3 \<Rightarrow> UAV" where
  "setVelocity u v = u\<lparr>velocity := v\<rparr>"

text \<open>
  The calls the pass makes on the agents, in the order it makes them: the pass is a run
  over the collection and a log of these calls.
\<close>

datatype AgentCall = GetSnapshot nat | SetVelocity nat Vec3

type_synonym PassState = "UAV list \<times> AgentCall list"

text \<open>\<^verbatim>\<open>uavs[k]->setVelocity(v)\<close>; the pass calls it with \<open>k\<close> below the size only.\<close>

definition setVelocityAt :: "nat \<Rightarrow> Vec3 \<Rightarrow> PassState \<Rightarrow> PassState" where
  "setVelocityAt k v st =
     (case st of (uavs, calls) \<Rightarrow> (uavs[k := setVelocity (uavs ! k) v], calls @ [SetVelocity k v]))"

text \<open>The test of line 150 on the snapshots of a pair.\<close>

definition tooClose :: "Snapshot list \<Rightarrow> real \<Rightarrow> nat \<Rightarrow> nat \<Rightarrow> bool" where
  "tooClose snaps minDist i j = (distance (pos (snaps ! i)) (pos (snaps ! j)) < minDist)"

text \<open>The body of the inner loop, lines 149-155.\<close>

definition resolvePair :: "Snapshot list \<Rightarrow> real \<Rightarrow> nat \<times> nat \<Rightarrow> PassState \<Rightarrow> PassState" where
  "resolvePair snaps minDist ij st =
     (case ij of (i, j) \<Rightarrow>
        if tooClose snaps minDist i j
        then setVelocityAt j (vel (snaps ! i)) (setVelocityAt i (vel (snaps ! j)) st)
        else st)"

text \<open>The inner loop \<^verbatim>\<open>for (j = i+1; j < n; ++j)\<close>, entered at \<open>j\<close>.\<close>

function innerLoop :: "Snapshot list \<Rightarrow> real \<Rightarrow> nat \<Rightarrow> nat \<Rightarrow> nat \<Rightarrow> PassState \<Rightarrow> PassState" where
  "innerLoop snaps minDist n i j st =
     (if j < n then innerLoop snaps minDist n i (j + 1) (resolvePair snaps minDist (i, j) st)
      else st)"
  by pat_completeness auto
termination
  by (relation "measure (\<lambda>(snaps, minDist, n, i, j, st). n - j)") auto

declare innerLoop.simps [simp del]

text \<open>The outer loop \<^verbatim>\<open>for (i = 0; i < n; ++i)\<close>, entered at \<open>i\<close>.\<close>

function outerLoop :: "Snapshot list \<Rightarrow> real \<Rightarrow> nat \<Rightarrow> nat \<Rightarrow> PassState \<Rightarrow> PassState" where
  "outerLoop snaps minDist n i st =
     (if i < n then outerLoop snaps minDist n (i + 1) (innerLoop snaps minDist n i (i + 1) st)
      else st)"
  by pat_completeness auto
termination
  by (relation "measure (\<lambda>(snaps, minDist, n, i, st). n - i)") auto

declare outerLoop.simps [simp del]

text \<open>
  \<^verbatim>\<open>checkAndResolveCollisions\<close>, lines 131-158: the collection after the pass and the
  calls made on the agents.
\<close>

definition checkAndResolveCollisions :: "UAV list \<Rightarrow> real \<Rightarrow> PassState" where
  "checkAndResolveCollisions uavs minDist =
     (let n = length uavs in
      if n < 2 then (uavs, [])
      else
        (let snaps = map getSnapshot uavs
         in outerLoop snaps minDist n 0 (uavs, map GetSnapshot [0..<n])))"

subsection \<open>The iteration order over pairs\<close>

text \<open>
  The pairs \<open>(i, j)\<close> with \<open>i < j < n\<close> in the order the two loops visit them, the
  partners of an agent \<open>k\<close> along a list of pairs, and, on a list of snapshots, the pairs
  the test of line 150 accepts, the last partner of \<open>k\<close> among them and the writes they
  cause (used in the lemmas about the loops).
\<close>

definition pairsFrom :: "nat \<Rightarrow> nat \<Rightarrow> (nat \<times> nat) list" where
  "pairsFrom n i = concat (map (\<lambda>i. map (Pair i) [i + 1..<n]) [i..<n])"

definition pairOrder :: "nat \<Rightarrow> (nat \<times> nat) list" where
  "pairOrder n = pairsFrom n 0"

fun partnersOf :: "nat \<Rightarrow> (nat \<times> nat) list \<Rightarrow> nat list" where
  "partnersOf k [] = []"
| "partnersOf k ((i, j) # ps) =
     (if i = k then j # partnersOf k ps
      else if j = k then i # partnersOf k ps
      else partnersOf k ps)"

definition collidingPairs :: "Snapshot list \<Rightarrow> real \<Rightarrow> (nat \<times> nat) list \<Rightarrow> (nat \<times> nat) list" where
  "collidingPairs snaps minDist ps = filter (\<lambda>(i, j). tooClose snaps minDist i j) ps"

definition lastPartner :: "Snapshot list \<Rightarrow> real \<Rightarrow> (nat \<times> nat) list \<Rightarrow> nat \<Rightarrow> nat option" where
  "lastPartner snaps minDist ps k =
     (case rev (partnersOf k (collidingPairs snaps minDist ps)) of
        [] \<Rightarrow> None
      | j # _ \<Rightarrow> Some j)"

definition writesOf :: "Snapshot list \<Rightarrow> real \<Rightarrow> (nat \<times> nat) list \<Rightarrow> AgentCall list" where
  "writesOf snaps minDist ps =
     concat (map (\<lambda>(i, j). [SetVelocity i (vel (snaps ! j)), SetVelocity j (vel (snaps ! i))])
       (collidingPairs snaps minDist ps))"

subsection \<open>The pass in the words of the agents\<close>

text \<open>
  The same notions on the agents as they are before the pass, with nothing of the pass in
  them: two agents are within \<open>minDist\<close> when the Euclidean distance of their positions
  is below it; the close pairs in iteration order; the last partner of an agent among
  them; and the velocity writes they call for, each the velocity the partner had before
  the pass.
\<close>

definition withinMinDistance :: "UAV list \<Rightarrow> real \<Rightarrow> nat \<Rightarrow> nat \<Rightarrow> bool" where
  "withinMinDistance uavs minDist i j =
     (sqrt ((vx (position (uavs ! i)) - vx (position (uavs ! j))) ^ 2 +
            (vy (position (uavs ! i)) - vy (position (uavs ! j))) ^ 2 +
            (vz (position (uavs ! i)) - vz (position (uavs ! j))) ^ 2) < minDist)"

definition closePairs :: "UAV list \<Rightarrow> real \<Rightarrow> (nat \<times> nat) list" where
  "closePairs uavs minDist =
     filter (\<lambda>(i, j). withinMinDistance uavs minDist i j) (pairOrder (length uavs))"

definition lastClosePartner :: "UAV list \<Rightarrow> real \<Rightarrow> nat \<Rightarrow> nat option" where
  "lastClosePartner uavs minDist k =
     (case rev (partnersOf k (closePairs uavs minDist)) of [] \<Rightarrow> None | j # _ \<Rightarrow> Some j)"

definition velocityWrites :: "UAV list \<Rightarrow> real \<Rightarrow> AgentCall list" where
  "velocityWrites uavs minDist =
     concat (map (\<lambda>(i, j). [SetVelocity i (velocity (uavs ! j)), SetVelocity j (velocity (uavs ! i))])
       (closePairs uavs minDist))"

section \<open>Theorems about the PID controller\<close>

text \<open>On machine values: clamping to a nonnegative limit gives NaN or a value within it.\<close>

lemma dclamp_inLimit:
  "dle (Finite 0) limit \<Longrightarrow> dclamp v (dneg limit) limit = NaN \<or> inLimit (dclamp v (dneg limit) limit) limit"
  by (cases limit; cases v) (auto simp: dclamp_def inLimit_def)

lemma zero_inLimit: "dle (Finite 0) limit \<Longrightarrow> inLimit (Finite 0) limit"
  by (cases limit) (auto simp: inLimit_def)

lemma applyCall_limits:
  assumes "dle (Finite 0) il" and "dle (Finite 0) ol"
    and "integral_limit_m pid = il" and "output_limit_m pid = ol"
    and "integral_m pid = NaN \<or> inLimit (integral_m pid) il"
  shows "integral_limit_m (snd (applyCall ar pid c)) = il \<and>
         output_limit_m (snd (applyCall ar pid c)) = ol \<and>
         (integral_m (snd (applyCall ar pid c)) = NaN \<or> inLimit (integral_m (snd (applyCall ar pid c))) il) \<and>
         limitsOrNaN (applyCall ar pid c)"
proof (cases c)
  case (Calculate e dt)
  show ?thesis
  proof (cases "dle dt (Finite 0)")
    case True
    with assms Calculate zero_inLimit [of ol] show ?thesis
      by (simp add: calculate_m_def limitsOrNaN_def)
  next
    case False
    with assms Calculate dclamp_inLimit [of il] dclamp_inLimit [of ol]
    show ?thesis
      by (simp add: calculate_m_def limitsOrNaN_def Let_def)
  qed
next
  case Reset
  with assms zero_inLimit [of il] show ?thesis by (simp add: reset_m_def limitsOrNaN_def)
next
  case (SetGains p i d)
  with assms show ?thesis by (simp add: setGains_m_def limitsOrNaN_def)
qed

lemma runPID_limits:
  "dle (Finite 0) il \<Longrightarrow> dle (Finite 0) ol \<Longrightarrow> integral_limit_m pid = il \<Longrightarrow>
   output_limit_m pid = ol \<Longrightarrow> integral_m pid = NaN \<or> inLimit (integral_m pid) il \<Longrightarrow>
   list_all limitsOrNaN (runPID ar pid cs)"
proof (induction cs arbitrary: pid)
  case Nil
  then show ?case by simp
next
  case (Cons c cs)
  from applyCall_limits [OF Cons.prems, of ar c]
  have a: "integral_limit_m (snd (applyCall ar pid c)) = il"
      "output_limit_m (snd (applyCall ar pid c)) = ol"
      "integral_m (snd (applyCall ar pid c)) = NaN \<or> inLimit (integral_m (snd (applyCall ar pid c))) il"
    and b: "limitsOrNaN (applyCall ar pid c)"
    by simp_all
  from Cons.IH [OF Cons.prems(1,2) a] b show ?case by (simp add: Let_def)
qed

text \<open>
  C5, as the claim states it, fails in three ways. With finite arguments and limits 100:
  \<^verbatim>\<open>PIDController(1, 0, 0, 100, 100).calculate(1e300, 1e-10)\<close> overflows the derivative
  to infinity, \<open>kd * derivative = 0 * inf\<close> is NaN, and \<^verbatim>\<open>std::clamp\<close> returns the NaN.
  With a NaN error the accumulator and the value returned are NaN. With a negative limit
  the interval of the claim is empty, while the accumulator is 0 after \<^verbatim>\<open>reset\<close> and
  \<^verbatim>\<open>calculate\<close> returns 0 for \<open>dt \<le> 0\<close>.
\<close>

theorem pid_limits_counterexample:
  "\<not> list_all claimedLimits
       (runPID unroundedArith
          (PIDController_m (Finite 1) (Finite 0) (Finite 0) (Finite 100) (Finite 100))
          [Calculate (Finite (10 ^ 300)) (Finite (1 / 10 ^ 10))]) \<and>
   \<not> list_all claimedLimits
       (runPID unroundedArith
          (PIDController_m (Finite 5) (Finite 1) (Finite (1/2)) (Finite 100) (Finite 20))
          [Calculate NaN (Finite 1)]) \<and>
   \<not> list_all claimedLimits
       (runPID unroundedArith
          (PIDController_m (Finite 5) (Finite 1) (Finite (1/2)) (Finite (- 1)) (Finite (- 1)))
          [Calculate (Finite 3) (Finite 0), Reset])"
  by (simp add: claimedLimits_def inLimit_def calculate_m_def reset_m_def PIDController_m_def
      Let_def unroundedArith_def usub_def overflow_def overflowBound_def dclamp_def)

text \<open>
  C5, amended: for a controller constructed with nonnegative \<open>integralLimit\<close> and
  \<open>outputLimit\<close> (neither of them NaN), for every sequence of \<^verbatim>\<open>calculate\<close>, \<^verbatim>\<open>reset\<close>
  and \<^verbatim>\<open>setGains\<close> calls on it with any double arguments, and whatever the machine
  arithmetic rounds to, after every call the integral accumulator is NaN or lies within
  \<open>[-integralLimit, +integralLimit]\<close>, and every value \<^verbatim>\<open>calculate\<close> returns is NaN or
  lies within \<open>[-outputLimit, +outputLimit]\<close>.
\<close>

theorem pid_limits:
  "dle (Finite 0) il \<Longrightarrow> dle (Finite 0) ol \<Longrightarrow>
   list_all limitsOrNaN (runPID ar (PIDController_m p i d il ol) cs)"
proof -
  assume il: "dle (Finite 0) il" and ol: "dle (Finite 0) ol"
  from zero_inLimit [OF il]
  have "integral_m (PIDController_m p i d il ol) = NaN \<or>
        inLimit (integral_m (PIDController_m p i d il ol)) il"
    by (simp add: PIDController_m_def)
  with il ol show ?thesis
    by (intro runPID_limits [of il ol]) (simp_all add: PIDController_m_def)
qed

theorem pid_limits_witness:
  "dle (Finite 0) (Finite 100) \<and> dle (Finite 0) (Finite 20) \<and>
   list_all limitsOrNaN
     (runPID unroundedArith
        (PIDController_m (Finite 5) (Finite 1) (Finite (1/2)) (Finite 100) (Finite 20))
        [Calculate (Finite 300) (Finite 1), SetGains (Finite 1) (Finite 2) (Finite 3),
         Calculate (Finite (- 7)) (Finite (1/100)), Reset, Calculate (Finite 1) (Finite 0),
         Calculate (Finite (10 ^ 300)) (Finite (1 / 10 ^ 10)), Calculate NaN (Finite 1)]) \<and>
   map fst (runPID unroundedArith
        (PIDController_m (Finite 1) (Finite 0) (Finite 0) (Finite 100) (Finite 100))
        [Calculate (Finite (10 ^ 300)) (Finite (1 / 10 ^ 10))]) = [Some NaN]"
proof -
  have h1: "dle (Finite 0) (Finite 100)" and h2: "dle (Finite 0) (Finite 20)" by simp_all
  have e: "map fst (runPID unroundedArith
        (PIDController_m (Finite 1) (Finite 0) (Finite 0) (Finite 100) (Finite 100))
        [Calculate (Finite (10 ^ 300)) (Finite (1 / 10 ^ 10))]) = [Some NaN]"
    by (simp add: calculate_m_def PIDController_m_def Let_def
      unroundedArith_def usub_def overflow_def overflowBound_def dclamp_def)
  from h1 h2 e pid_limits [OF h1 h2, of unroundedArith "Finite 5" "Finite 1" "Finite (1/2)"]
  show ?thesis by (simp only: simp_thms)
qed

text \<open>
  C7: for every error value and every \<open>dt \<le> 0\<close>, \<^verbatim>\<open>calculate\<close> returns 0 and leaves
  the whole controller (integral accumulator, previous error, gains and limits) unchanged.
\<close>

theorem calculate_nonpositive_dt_noop:
  "dt \<le> 0 \<Longrightarrow> calculate pid error dt = (0, pid)"
  by (simp add: calculate_def)

theorem calculate_nonpositive_dt_noop_witness:
  "(-1::real) \<le> 0 \<and>
   calculate (PIDController 5 1 (1/2) 100 20) 3 (-1) = (0, PIDController 5 1 (1/2) 100 20)"
  using calculate_nonpositive_dt_noop [of "-1" "PIDController 5 1 (1/2) 100 20" 3] by simp

section \<open>Theorems about the vector primitives\<close>

lemma mag_zero: "mag (Vec3 0 0 0) = 0"
  by (simp add: mag_def)

lemma mag_axis: "mag (Vec3 0 0 c) = \<bar>c\<bar>"
  by (simp add: mag_def)

lemma distance_commute: "distance a b = distance b a"
proof -
  have "(vx a - vx b) * (vx a - vx b) = (vx b - vx a) * (vx b - vx a)"
       "(vy a - vy b) * (vy a - vy b) = (vy b - vy a) * (vy b - vy a)"
       "(vz a - vz b) * (vz a - vz b) = (vz b - vz a) * (vz b - vz a)"
    by (simp_all add: algebra_simps)
  then show ?thesis by (simp add: distance_def mag_def vsub_def)
qed

section \<open>Theorems about the control law\<close>


lemma wait_step:
  "phase s = GroundWait \<Longrightarrow> timeInPhase s + dt < groundWait c \<Longrightarrow>
   computeControlForce p v s P c dt = (Vec3 0 0 0, s\<lparr>timeInPhase := timeInPhase s + dt\<rparr>, P)"
  by (simp add: computeControlForce_def groundWaitBlock_def)

lemma phase_after_call:
  "phase (fst (snd (computeControlForce p v s P c dt))) =
     (if phase s = GroundWait \<and> timeInPhase s + dt < groundWait c then GroundWait
      else if phase s = OnSphere then OnSphere
      else if distance p (center c) < 2 then OnSphere else ClimbToCenter)"
  by (cases "phase s")
     (simp_all add: computeControlForce_def groundWaitBlock_def arrivalBlock_def climbForce_def
       sphereForce_def Let_def split: prod.splits)

lemma time_after_transition:
  "phase s = GroundWait \<Longrightarrow> groundWait c \<le> timeInPhase s + dt \<Longrightarrow>
   timeInPhase (fst (snd (computeControlForce p v s P c dt))) = 0"
  by (simp add: computeControlForce_def groundWaitBlock_def arrivalBlock_def climbForce_def
       sphereForce_def Let_def split: prod.splits)

lemma rank_step:
  "phaseRank (phase s) \<le> phaseRank (phase (fst (snd (computeControlForce p v s P c dt))))"
  by (cases "phase s") (simp_all add: phase_after_call)

lemma observedPhases_Cons:
  "observedPhases s P ((p, v, c, dt) # calls) =
     (case computeControlForce p v s P c dt of
        (f, s', P') \<Rightarrow> phase s' # observedPhases s' P' calls)"
  by (simp add: observedPhases_def split: prod.splits)

lemma rank_run:
  "\<forall>q\<in>set (observedPhases s P calls). phaseRank (phase s) \<le> phaseRank q"
proof (induction calls arbitrary: s P)
  case Nil
  then show ?case by (simp add: observedPhases_def)
next
  case (Cons call calls)
  obtain p v c dt where call: "call = (p, v, c, dt)" by (cases call)
  obtain f s' P' where r: "computeControlForce p v s P c dt = (f, s', P')"
    by (cases "computeControlForce p v s P c dt")
  from rank_step [of s p v P c dt] r have le: "phaseRank (phase s) \<le> phaseRank (phase s')" by simp
  from Cons.IH [of s' P'] le show ?case
    by (auto simp: call r observedPhases_Cons)
qed

lemma sorted_run:
  "sorted_wrt (\<lambda>a b. phaseRank a \<le> phaseRank b) (phase s # observedPhases s P calls)"
proof (induction calls arbitrary: s P)
  case Nil
  then show ?case by (simp add: observedPhases_def)
next
  case (Cons call calls)
  obtain p v c dt where call: "call = (p, v, c, dt)" by (cases call)
  obtain f s' P' where r: "computeControlForce p v s P c dt = (f, s', P')"
    by (cases "computeControlForce p v s P c dt")
  from Cons.IH [of s' P'] rank_run [of s P "call # calls"] show ?case
    by (simp add: call r observedPhases_Cons)
qed

lemma runControl_Cons:
  "runControl s P ((p, v, c, dt) # calls) =
     (s, fst (computeControlForce p v s P c dt), fst (snd (computeControlForce p v s P c dt)),
        snd (snd (computeControlForce p v s P c dt)))
     # runControl (fst (snd (computeControlForce p v s P c dt)))
         (snd (snd (computeControlForce p v s P c dt))) calls"
  by (simp split: prod.splits)

text \<open>Once out of \<^verbatim>\<open>GroundWait\<close>, no call of a run starts or ends in it.\<close>

lemma never_back_run:
  "phase s \<noteq> GroundWait \<Longrightarrow>
   \<forall>e\<in>set (runControl s P calls).
      case e of (sb, f, sa, Pa) \<Rightarrow> phase sb \<noteq> GroundWait \<and> phase sa \<noteq> GroundWait"
proof (induction calls arbitrary: s P)
  case Nil
  then show ?case by simp
next
  case (Cons call calls)
  obtain p v c dt where call: "call = (p, v, c, dt)" by (cases call)
  from Cons.prems have n: "phase (fst (snd (computeControlForce p v s P c dt))) \<noteq> GroundWait"
    by (simp add: phase_after_call)
  from Cons.IH [OF n] Cons.prems n show ?case
    unfolding call runControl_Cons by (simp add: case_prod_beta)
qed

lemma never_leaves_again:
  "phase s \<noteq> GroundWait \<Longrightarrow> filter leavesGroundWait (runControl s P calls) = []"
  using never_back_run [of s P calls]
  by (auto simp: filter_empty_conv leavesGroundWait_def case_prod_beta)

text \<open>The definitions a concrete call is evaluated with.\<close>

lemmas control_defs = computeControlForce_def groundWaitBlock_def
  arrivalBlock_def climbForce_def sphereForce_def clampMagnitude_def normalized_def
  initialState_def defaultConfig_def uavPIDs_def defaultPIDs_def PIDController_def distance_def
  vsub_def vadd_def smul_def sdiv_def mag_axis mag_zero calculate_def reset_def clamp_def Let_def

subsection \<open>Arrival at the center\<close>

text \<open>
  C1, as the claim states it, fails in its last part: the call that arrives goes on, in
  the same call, to the first \<^verbatim>\<open>OnSphere\<close> force computation, which runs both freshly
  reset controllers once. An agent in \<^verbatim>\<open>ClimbToCenter\<close> at distance exactly 1.9 from the
  center, with the controllers of the \<^verbatim>\<open>UAV\<close> constructor, the default radius and speed
  band and \<open>dt = 0.01\<close>, leaves the call with the accumulators at \<open>-0.081\<close> and \<open>0.06\<close>.
\<close>

theorem arrival_integrals_counterexample:
  "phase (initialState\<lparr>phase := ClimbToCenter\<rparr>) = ClimbToCenter \<and>
   distance (Vec3 0 0 0) (center (defaultConfig\<lparr>center := Vec3 0 0 (19/10)\<rparr>)) = 19/10 \<and>
   integral (radialPID (snd (snd (computeControlForce (Vec3 0 0 0) (Vec3 0 0 0)
       (initialState\<lparr>phase := ClimbToCenter\<rparr>) uavPIDs
       (defaultConfig\<lparr>center := Vec3 0 0 (19/10)\<rparr>) (1/100))))) = - (81/1000) \<and>
   integral (speedPID (snd (snd (computeControlForce (Vec3 0 0 0) (Vec3 0 0 0)
       (initialState\<lparr>phase := ClimbToCenter\<rparr>) uavPIDs
       (defaultConfig\<lparr>center := Vec3 0 0 (19/10)\<rparr>) (1/100))))) = 6/100"
  by (simp add: control_defs)

text \<open>
  C1, amended: if \<^verbatim>\<open>computeControlForce\<close> is called with the control state in phase
  \<^verbatim>\<open>ClimbToCenter\<close> and the distance from the given position to the configured center
  strictly below 2.0, then during that call the phase becomes \<^verbatim>\<open>OnSphere\<close>,
  \<open>timeInPhase\<close> is reset to 0, the center-visited flag is set and both PID controllers are
  reset; the same call then runs each reset controller once for the first \<^verbatim>\<open>OnSphere\<close>
  force, so that after the call each controller is the reset one after one
  \<^verbatim>\<open>calculate\<close> (radial error \<open>r - sphereRadius\<close>, speed error \<open>targetSpeed - speed\<close>), and
  its integral accumulator is that error times \<open>dt\<close>, clamped to the integral limit (and
  zero when \<open>dt \<le> 0\<close>).
\<close>

theorem arrival_resets_then_runs:
  assumes "phase s = ClimbToCenter" and "distance p (center c) < 2"
  shows "case computeControlForce p v s P c dt of (f, s', P') \<Rightarrow>
           phase s' = OnSphere \<and> timeInPhase s' = 0 \<and> visitedCenter s' \<and>
           radialPID P' =
             snd (calculate (reset (radialPID P)) (mag (vsub (center c) p) - sphereRadius c) dt) \<and>
           speedPID P' =
             snd (calculate (reset (speedPID P)) (0.5 * (minSpeed c + maxSpeed c) - mag v) dt) \<and>
           integral (radialPID P') =
             (if dt \<le> 0 then 0
              else clamp ((mag (vsub (center c) p) - sphereRadius c) * dt)
                     (- integral_limit (radialPID P)) (integral_limit (radialPID P))) \<and>
           integral (speedPID P') =
             (if dt \<le> 0 then 0
              else clamp ((0.5 * (minSpeed c + maxSpeed c) - mag v) * dt)
                     (- integral_limit (speedPID P)) (integral_limit (speedPID P)))"
  using assms
  by (simp add: computeControlForce_def groundWaitBlock_def arrivalBlock_def sphereForce_def
      calculate_def reset_def Let_def split: prod.splits)

theorem arrival_resets_then_runs_witness:
  "phase (initialState\<lparr>phase := ClimbToCenter\<rparr>) = ClimbToCenter \<and>
   distance (Vec3 0 0 49) (center defaultConfig) < 2 \<and>
   (case computeControlForce (Vec3 0 0 49) (Vec3 0 0 0) (initialState\<lparr>phase := ClimbToCenter\<rparr>)
           uavPIDs defaultConfig (1/2) of
      (f, s', P') \<Rightarrow>
        phase s' = OnSphere \<and> timeInPhase s' = 0 \<and> visitedCenter s' \<and>
        integral (radialPID P') = - (9/2) \<and> integral (speedPID P') = 3)"
proof -
  have h1: "phase (initialState\<lparr>phase := ClimbToCenter\<rparr>) = ClimbToCenter" by simp
  have h2: "distance (Vec3 0 0 49) (center defaultConfig) < 2"
    by (simp add: defaultConfig_def distance_def vsub_def mag_axis)
  from arrival_resets_then_runs [OF h1 h2, where v = "Vec3 0 0 0" and P = uavPIDs and dt = "1/2"]
    h1 h2
  show ?thesis
    by (simp add: case_prod_beta defaultConfig_def uavPIDs_def PIDController_def vsub_def mag_axis
        mag_zero clamp_def calculate_def reset_def)
qed

subsection \<open>The order of the phases\<close>

text \<open>
  C3, as the claim states it, fails in its second part: the two transition tests follow
  each other in one call, so an agent whose ground wait ends while its position is within
  2.0 of the center is observed in \<^verbatim>\<open>GroundWait\<close> before the call and in \<^verbatim>\<open>OnSphere\<close>
  after it. Here the agent starts at the center with \<open>groundWait = 0\<close>.
\<close>

theorem phase_skip_counterexample:
  "phase initialState = GroundWait \<and>
   observedPhases initialState uavPIDs
     [(Vec3 0 0 50, Vec3 0 0 0, defaultConfig\<lparr>groundWait := 0\<rparr>, 1/100)] = [OnSphere]"
  by (simp add: observedPhases_def case_prod_beta phase_after_call initialState_def
      defaultConfig_def distance_def vsub_def mag_zero)

text \<open>
  C3, amended: across every sequence of \<^verbatim>\<open>computeControlForce\<close> calls, from the initial
  control state or any other, the phase observed after each call never moves backward in
  the order \<^verbatim>\<open>GroundWait\<close>, \<^verbatim>\<open>ClimbToCenter\<close>, \<^verbatim>\<open>OnSphere\<close>; and a single call takes the
  observed phase from \<^verbatim>\<open>GroundWait\<close> to \<^verbatim>\<open>OnSphere\<close> exactly when, on that call, the
  incremented \<open>timeInPhase\<close> has reached \<open>groundWait\<close> and the position is within 2.0 of the
  center.
\<close>

theorem phase_order:
  "sorted_wrt (\<lambda>a b. phaseRank a \<le> phaseRank b) (phase s # observedPhases s P calls) \<and>
   (phase s = GroundWait \<longrightarrow>
      (phase (fst (snd (computeControlForce p v s P c dt))) = OnSphere) =
      (groundWait c \<le> timeInPhase s + dt \<and> distance p (center c) < 2))"
proof (intro conjI impI)
  show "sorted_wrt (\<lambda>a b. phaseRank a \<le> phaseRank b) (phase s # observedPhases s P calls)"
    by (rule sorted_run)
next
  assume "phase s = GroundWait"
  then show "(phase (fst (snd (computeControlForce p v s P c dt))) = OnSphere) =
      (groundWait c \<le> timeInPhase s + dt \<and> distance p (center c) < 2)"
    by (auto simp: phase_after_call)
qed

theorem phase_order_witness:
  "phase initialState = GroundWait \<and>
   sorted_wrt (\<lambda>a b. phaseRank a \<le> phaseRank b)
     (phase initialState # observedPhases initialState uavPIDs
        [(Vec3 0 0 0, Vec3 0 0 0, defaultConfig, 3), (Vec3 0 0 0, Vec3 0 0 0, defaultConfig, 3),
         (Vec3 0 0 49, Vec3 0 0 0, defaultConfig, 1)]) \<and>
   observedPhases initialState uavPIDs
        [(Vec3 0 0 0, Vec3 0 0 0, defaultConfig, 3), (Vec3 0 0 0, Vec3 0 0 0, defaultConfig, 3),
         (Vec3 0 0 49, Vec3 0 0 0, defaultConfig, 1)] = [GroundWait, ClimbToCenter, OnSphere] \<and>
   (phase (fst (snd (computeControlForce (Vec3 0 0 49) (Vec3 0 0 0) initialState uavPIDs
       defaultConfig 6))) = OnSphere) =
   (groundWait defaultConfig \<le> timeInPhase initialState + 6 \<and>
    distance (Vec3 0 0 49) (center defaultConfig) < 2)"
proof -
  have h: "phase initialState = GroundWait" by (simp add: initialState_def)
  have e: "observedPhases initialState uavPIDs
        [(Vec3 0 0 0, Vec3 0 0 0, defaultConfig, 3), (Vec3 0 0 0, Vec3 0 0 0, defaultConfig, 3),
         (Vec3 0 0 49, Vec3 0 0 0, defaultConfig, 1)] = [GroundWait, ClimbToCenter, OnSphere]"
    by (simp add: observedPhases_def control_defs)
  from h e phase_order [of initialState uavPIDs
        "[(Vec3 0 0 0, Vec3 0 0 0, defaultConfig, 3), (Vec3 0 0 0, Vec3 0 0 0, defaultConfig, 3),
         (Vec3 0 0 49, Vec3 0 0 0, defaultConfig, 1)]" "Vec3 0 0 49" "Vec3 0 0 0" defaultConfig 6]
  show ?thesis by (simp only: simp_thms)
qed

subsection \<open>The clamp on the force\<close>




subsection \<open>The ground wait\<close>

text \<open>
  C8, as the claim states it, fails where it says the agent is in \<^verbatim>\<open>ClimbToCenter\<close>
  after the tick that ends the wait: the arrival test of the same call fires when the
  position is within 2.0 of the center. Here the center is \<open>(0, 0, 1)\<close>, \<open>groundWait\<close> is 1
  and \<open>dt\<close> is 1/2; the first tick waits, the second ends the wait, and the phases observed
  after the three ticks are \<^verbatim>\<open>GroundWait\<close>, \<^verbatim>\<open>OnSphere\<close>, \<^verbatim>\<open>OnSphere\<close>.
\<close>

theorem ground_wait_skip_counterexample:
  "phase initialState = GroundWait \<and>
   stillWaiting initialState
     [(Vec3 0 0 0, Vec3 0 0 0, defaultConfig\<lparr>center := Vec3 0 0 1, groundWait := 1\<rparr>, 1/2)] \<and>
   groundWait (defaultConfig\<lparr>center := Vec3 0 0 1, groundWait := 1\<rparr>) \<le>
     timeInPhase initialState +
     elapsed [(Vec3 0 0 0, Vec3 0 0 0, defaultConfig\<lparr>center := Vec3 0 0 1, groundWait := 1\<rparr>, 1/2)] +
     1/2 \<and>
   observedPhases initialState uavPIDs
     [(Vec3 0 0 0, Vec3 0 0 0, defaultConfig\<lparr>center := Vec3 0 0 1, groundWait := 1\<rparr>, 1/2),
      (Vec3 0 0 0, Vec3 0 0 0, defaultConfig\<lparr>center := Vec3 0 0 1, groundWait := 1\<rparr>, 1/2),
      (Vec3 0 0 0, Vec3 0 0 0, defaultConfig\<lparr>center := Vec3 0 0 1, groundWait := 1\<rparr>, 1/2)]
     = [GroundWait, OnSphere, OnSphere]"
  by (simp add: observedPhases_def elapsed_def control_defs)

text \<open>
  C8, amended: for an agent whose control state is in \<^verbatim>\<open>GroundWait\<close>,
  \<^verbatim>\<open>computeControlForce\<close> returns the exact zero vector, stays in \<^verbatim>\<open>GroundWait\<close> and leaves
  the controllers untouched on every tick for which the incremented \<open>timeInPhase\<close> is still
  below \<open>groundWait\<close>. On the first tick where the incremented \<open>timeInPhase\<close> reaches or
  exceeds \<open>groundWait\<close>, the \<^verbatim>\<open>GroundWait\<close> block sets the phase to \<^verbatim>\<open>ClimbToCenter\<close> and
  \<open>timeInPhase\<close> to 0; after that call \<open>timeInPhase\<close> is 0 and the phase is
  \<^verbatim>\<open>ClimbToCenter\<close> if the position is at distance 2.0 or more from the center, and
  \<^verbatim>\<open>OnSphere\<close> if it is closer. No later call of the run starts or ends in
  \<^verbatim>\<open>GroundWait\<close>, so exactly one call of the run leaves it.
\<close>

theorem ground_wait_then_one_transition:
  assumes "phase s = GroundWait"
    and "stillWaiting s pre"
    and "groundWait c \<le> timeInPhase s + elapsed pre + dt"
  shows "list_all (\<lambda>(sb, f, sa, Pa). f = Vec3 0 0 0 \<and> phase sa = GroundWait \<and> Pa = P)
           (take (length pre) (runControl s P (pre @ (p, v, c, dt) # post))) \<and>
         (case runControl s P (pre @ (p, v, c, dt) # post) ! length pre of (sb, f, sa, Pa) \<Rightarrow>
            sb = s\<lparr>timeInPhase := timeInPhase s + elapsed pre\<rparr> \<and>
            groundWaitBlock (sb\<lparr>timeInPhase := timeInPhase sb + dt\<rparr>) c =
              Some (s\<lparr>phase := ClimbToCenter, timeInPhase := 0\<rparr>) \<and>
            timeInPhase sa = 0 \<and>
            phase sa = (if distance p (center c) < 2 then OnSphere else ClimbToCenter)) \<and>
         list_all (\<lambda>(sb, f, sa, Pa). phase sb \<noteq> GroundWait \<and> phase sa \<noteq> GroundWait)
           (drop (Suc (length pre)) (runControl s P (pre @ (p, v, c, dt) # post))) \<and>
         length (filter leavesGroundWait (runControl s P (pre @ (p, v, c, dt) # post))) = 1"
  using assms
proof (induction pre arbitrary: s)
  case Nil
  let ?r = "computeControlForce p v s P c dt"
  from Nil have ge: "groundWait c \<le> timeInPhase s + dt" by (simp add: elapsed_def)
  with Nil have ph:
    "phase (fst (snd ?r)) = (if distance p (center c) < 2 then OnSphere else ClimbToCenter)"
    by (simp add: phase_after_call)
  then have ng: "phase (fst (snd ?r)) \<noteq> GroundWait" by simp
  from Nil ge have t0: "timeInPhase (fst (snd ?r)) = 0" by (simp add: time_after_transition)
  from Nil ge have gb: "groundWaitBlock (s\<lparr>timeInPhase := timeInPhase s + dt\<rparr>) c =
              Some (s\<lparr>phase := ClimbToCenter, timeInPhase := 0\<rparr>)"
    by (simp add: groundWaitBlock_def)
  from never_back_run [OF ng] never_leaves_again [OF ng] Nil(1) ng ph t0 gb show ?case
    unfolding append_Nil runControl_Cons list_all_iff
    by (simp add: elapsed_def leavesGroundWait_def case_prod_beta)
next
  case (Cons call pre)
  obtain p' v' c' dt' where call: "call = (p', v', c', dt')" by (cases call)
  let ?s = "s\<lparr>timeInPhase := timeInPhase s + dt'\<rparr>"
  from Cons.prems call have lt: "timeInPhase s + dt' < groundWait c'" and w: "stillWaiting ?s pre"
    by simp_all
  from Cons.prems(1) lt have step: "computeControlForce p' v' s P c' dt' = (Vec3 0 0 0, ?s, P)"
    by (rule wait_step)
  from Cons.prems(1) have g: "phase ?s = GroundWait" by simp
  from Cons.prems(3) call have ge: "groundWait c \<le> timeInPhase ?s + elapsed pre + dt"
    by (simp add: elapsed_def)
  from Cons.prems(1,3) have gb:
    "groundWaitBlock (s\<lparr>timeInPhase := timeInPhase s + elapsed (call # pre) + dt\<rparr>) c =
       Some (s\<lparr>phase := ClimbToCenter, timeInPhase := 0\<rparr>)"
    by (simp add: groundWaitBlock_def)
  from Cons.IH [OF g w ge] Cons.prems(1) gb show ?case
    unfolding call append_Cons runControl_Cons step
    by (simp add: leavesGroundWait_def elapsed_def case_prod_beta add.assoc)
qed

theorem ground_wait_then_one_transition_witness:
  "phase initialState = GroundWait \<and>
   stillWaiting initialState
     [(Vec3 0 0 0, Vec3 0 0 0, defaultConfig, 2), (Vec3 0 0 0, Vec3 0 0 0, defaultConfig, 2)] \<and>
   groundWait defaultConfig \<le> timeInPhase initialState +
     elapsed [(Vec3 0 0 0, Vec3 0 0 0, defaultConfig, 2), (Vec3 0 0 0, Vec3 0 0 0, defaultConfig, 2)] + 2 \<and>
   list_all (\<lambda>(sb, f, sa, Pa). f = Vec3 0 0 0 \<and> phase sa = GroundWait \<and> Pa = uavPIDs)
     (take (length [(Vec3 0 0 0, Vec3 0 0 0, defaultConfig, 2::real),
                    (Vec3 0 0 0, Vec3 0 0 0, defaultConfig, 2)])
        (runControl initialState uavPIDs
          ([(Vec3 0 0 0, Vec3 0 0 0, defaultConfig, 2), (Vec3 0 0 0, Vec3 0 0 0, defaultConfig, 2)] @
           (Vec3 0 0 0, Vec3 0 0 0, defaultConfig, 2) # [(Vec3 0 0 1, Vec3 0 0 1, defaultConfig, 2)]))) \<and>
   (case runControl initialState uavPIDs
        ([(Vec3 0 0 0, Vec3 0 0 0, defaultConfig, 2), (Vec3 0 0 0, Vec3 0 0 0, defaultConfig, 2)] @
         (Vec3 0 0 0, Vec3 0 0 0, defaultConfig, 2) # [(Vec3 0 0 1, Vec3 0 0 1, defaultConfig, 2)]) !
        length [(Vec3 0 0 0, Vec3 0 0 0, defaultConfig, 2::real),
                (Vec3 0 0 0, Vec3 0 0 0, defaultConfig, 2)]
    of (sb, f, sa, Pa) \<Rightarrow>
      sb = initialState\<lparr>timeInPhase := timeInPhase initialState +
        elapsed [(Vec3 0 0 0, Vec3 0 0 0, defaultConfig, 2), (Vec3 0 0 0, Vec3 0 0 0, defaultConfig, 2)]\<rparr> \<and>
      groundWaitBlock (sb\<lparr>timeInPhase := timeInPhase sb + 2\<rparr>) defaultConfig =
        Some (initialState\<lparr>phase := ClimbToCenter, timeInPhase := 0\<rparr>) \<and>
      timeInPhase sa = 0 \<and> phase sa = ClimbToCenter) \<and>
   length (filter leavesGroundWait (runControl initialState uavPIDs
        ([(Vec3 0 0 0, Vec3 0 0 0, defaultConfig, 2), (Vec3 0 0 0, Vec3 0 0 0, defaultConfig, 2)] @
         (Vec3 0 0 0, Vec3 0 0 0, defaultConfig, 2) # [(Vec3 0 0 1, Vec3 0 0 1, defaultConfig, 2)]))) = 1"
proof -
  let ?c = "(Vec3 0 0 0, Vec3 0 0 0, defaultConfig, 2::real)"
  have h1: "phase initialState = GroundWait" by (simp add: initialState_def)
  have h2: "stillWaiting initialState [?c, ?c]"
    by (simp add: initialState_def defaultConfig_def)
  have h3: "groundWait defaultConfig \<le> timeInPhase initialState + elapsed [?c, ?c] + 2"
    by (simp add: initialState_def defaultConfig_def elapsed_def)
  have d: "(distance (Vec3 0 0 0) (center defaultConfig) < 2) = False"
    by (simp add: defaultConfig_def distance_def vsub_def mag_axis)
  note T = ground_wait_then_one_transition [OF h1 h2 h3, of uavPIDs "Vec3 0 0 0" "Vec3 0 0 0"
      "[(Vec3 0 0 1, Vec3 0 0 1, defaultConfig, 2)]", unfolded d if_False]
  from h1 h2 h3 T show ?thesis by (simp only: simp_thms)
qed

section \<open>Theorems about the collision pass\<close>

text \<open>The two loops run the loop body over the pairs in iteration order.\<close>

lemma innerLoop_fold:
  "innerLoop snaps minDist n i j st = fold (resolvePair snaps minDist) (map (Pair i) [j..<n]) st"
proof (induction snaps minDist n i j st rule: innerLoop.induct)
  case (1 snaps minDist n i j st)
  show ?case
  proof (cases "j < n")
    case True
    then have "[j..<n] = j # [j + 1..<n]" by (simp add: upt_conv_Cons)
    with True "1.IH" show ?thesis
      by (subst innerLoop.simps) simp
  next
    case False
    then show ?thesis by (subst innerLoop.simps) simp
  qed
qed

lemma pairsFrom_step: "i < n \<Longrightarrow> pairsFrom n i = map (Pair i) [i + 1..<n] @ pairsFrom n (i + 1)"
  by (simp add: pairsFrom_def upt_conv_Cons)

lemma pairsFrom_done: "\<not> i < n \<Longrightarrow> pairsFrom n i = []"
  by (simp add: pairsFrom_def)

lemma outerLoop_fold:
  "outerLoop snaps minDist n i st = fold (resolvePair snaps minDist) (pairsFrom n i) st"
proof (induction snaps minDist n i st rule: outerLoop.induct)
  case (1 snaps minDist n i st)
  show ?case
  proof (cases "i < n")
    case True
    with "1.IH" show ?thesis
      by (subst outerLoop.simps) (simp add: pairsFrom_step innerLoop_fold)
  next
    case False
    then show ?thesis by (subst outerLoop.simps) (simp add: pairsFrom_done)
  qed
qed

lemma set_pairsFrom: "set (pairsFrom n i) = {(a, b). i \<le> a \<and> a < b \<and> b < n}"
  by (fastforce simp: pairsFrom_def)

lemma resolvePair_apply:
  "resolvePair snaps minDist (i, j) (U, C) =
     (if tooClose snaps minDist i j
      then ((U[i := setVelocity (U ! i) (vel (snaps ! j))])
              [j := setVelocity (U[i := setVelocity (U ! i) (vel (snaps ! j))] ! j) (vel (snaps ! i))],
            C @ [SetVelocity i (vel (snaps ! j)), SetVelocity j (vel (snaps ! i))])
      else (U, C))"
  by (simp add: resolvePair_def setVelocityAt_def)

lemma partnersOf_append: "partnersOf k (xs @ ys) = partnersOf k xs @ partnersOf k ys"
  by (induction k xs rule: partnersOf.induct) simp_all

lemma set_partnersOf: "set (partnersOf k ps) = {j. (k, j) \<in> set ps \<or> (j, k) \<in> set ps}"
  by (induction k ps rule: partnersOf.induct) auto

lemma lastPartner_snoc:
  "lastPartner snaps minDist (ps @ [(i, j)]) k =
     (if tooClose snaps minDist i j \<and> (i = k \<or> j = k) then Some (if i = k then j else i)
      else lastPartner snaps minDist ps k)"
  by (simp add: lastPartner_def collidingPairs_def partnersOf_append)

lemma lastPartner_Nil: "lastPartner snaps minDist [] k = None"
  by (simp add: lastPartner_def collidingPairs_def)

lemma writesOf_snoc:
  "writesOf snaps minDist (ps @ [(i, j)]) =
     writesOf snaps minDist ps @
     (if tooClose snaps minDist i j
      then [SetVelocity i (vel (snaps ! j)), SetVelocity j (vel (snaps ! i))] else [])"
  by (simp add: writesOf_def collidingPairs_def)

lemma fold_resolvePair:
  assumes "\<forall>(i, j)\<in>set ps. i < length uavs \<and> j < length uavs \<and> i \<noteq> j"
  shows "length (fst (fold (resolvePair snaps minDist) ps (uavs, calls))) = length uavs \<and>
         snd (fold (resolvePair snaps minDist) ps (uavs, calls)) = calls @ writesOf snaps minDist ps \<and>
         (\<forall>k<length uavs. fst (fold (resolvePair snaps minDist) ps (uavs, calls)) ! k =
            (case lastPartner snaps minDist ps k of
               None \<Rightarrow> uavs ! k
             | Some j \<Rightarrow> (uavs ! k)\<lparr>velocity := vel (snaps ! j)\<rparr>))"
  using assms
proof (induction ps rule: rev_induct)
  case Nil
  then show ?case by (simp add: lastPartner_Nil writesOf_def collidingPairs_def)
next
  case (snoc ij ps)
  obtain i j where ij: "ij = (i, j)" by (cases ij)
  obtain U C where f: "fold (resolvePair snaps minDist) ps (uavs, calls) = (U, C)"
    by (cases "fold (resolvePair snaps minDist) ps (uavs, calls)")
  from snoc.prems ij have r: "i < length uavs" "j < length uavs" "i \<noteq> j" by auto
  from snoc.prems have "\<forall>(i, j)\<in>set ps. i < length uavs \<and> j < length uavs \<and> i \<noteq> j" by simp
  from snoc.IH [OF this] f
  have len: "length U = length uavs" and cs: "C = calls @ writesOf snaps minDist ps"
    and nth: "\<forall>k<length uavs. U ! k =
            (case lastPartner snaps minDist ps k of
               None \<Rightarrow> uavs ! k
             | Some j \<Rightarrow> (uavs ! k)\<lparr>velocity := vel (snaps ! j)\<rparr>)"
    by simp_all
  show ?case
  proof (cases "tooClose snaps minDist i j")
    case False
    with len cs nth show ?thesis
      by (simp add: ij f resolvePair_apply lastPartner_snoc writesOf_snoc)
  next
    case True
    have "\<forall>k<length uavs.
            (U[i := setVelocity (U ! i) (vel (snaps ! j))])
              [j := setVelocity (U[i := setVelocity (U ! i) (vel (snaps ! j))] ! j) (vel (snaps ! i))] ! k =
            (case lastPartner snaps minDist (ps @ [(i, j)]) k of
               None \<Rightarrow> uavs ! k
             | Some j \<Rightarrow> (uavs ! k)\<lparr>velocity := vel (snaps ! j)\<rparr>)"
    proof (intro allI impI)
      fix k assume k: "k < length uavs"
      with nth have uk: "U ! k = (case lastPartner snaps minDist ps k of
               None \<Rightarrow> uavs ! k
             | Some j \<Rightarrow> (uavs ! k)\<lparr>velocity := vel (snaps ! j)\<rparr>)" by simp
      from k r len True uk
      show "(U[i := setVelocity (U ! i) (vel (snaps ! j))])
              [j := setVelocity (U[i := setVelocity (U ! i) (vel (snaps ! j))] ! j) (vel (snaps ! i))] ! k =
            (case lastPartner snaps minDist (ps @ [(i, j)]) k of
               None \<Rightarrow> uavs ! k
             | Some j \<Rightarrow> (uavs ! k)\<lparr>velocity := vel (snaps ! j)\<rparr>)"
        by (auto simp: lastPartner_snoc nth_list_update setVelocity_def split: option.splits)
    qed
    with True len cs show ?thesis
      by (simp add: ij f resolvePair_apply writesOf_snoc)
  qed
qed

text \<open>
  The pass in closed form: the calls it makes, and each agent after it, which is the
  agent before it with the velocity of its last partner among the pairs too close.
\<close>

lemma lastPartner_None:
  "(lastPartner snaps minDist ps k = None) =
     (\<forall>(i, j)\<in>set ps. tooClose snaps minDist i j \<longrightarrow> i \<noteq> k \<and> j \<noteq> k)"
proof -
  have "(lastPartner snaps minDist ps k = None) = (set (partnersOf k (collidingPairs snaps minDist ps)) = {})"
    by (simp add: lastPartner_def split: list.splits)
  also have "\<dots> = (\<forall>(i, j)\<in>set ps. tooClose snaps minDist i j \<longrightarrow> i \<noteq> k \<and> j \<noteq> k)"
    by (auto simp: set_partnersOf collidingPairs_def)
  finally show ?thesis .
qed

lemma lastPartner_Some:
  assumes "lastPartner snaps minDist ps k = Some j"
  shows "((k, j) \<in> set ps \<and> tooClose snaps minDist k j) \<or> ((j, k) \<in> set ps \<and> tooClose snaps minDist j k)"
proof -
  from assms have "j \<in> set (rev (partnersOf k (collidingPairs snaps minDist ps)))"
    by (auto simp: lastPartner_def split: list.splits)
  then show ?thesis
    by (auto simp: set_partnersOf collidingPairs_def)
qed

lemma pairOrder_small: "n < 2 \<Longrightarrow> pairOrder n = []"
proof -
  assume "n < 2"
  then have "set (pairOrder n) = {}" by (auto simp: pairOrder_def set_pairsFrom)
  then show ?thesis by simp
qed

lemma pass_result:
  "length (fst (checkAndResolveCollisions uavs minDist)) = length uavs \<and>
   snd (checkAndResolveCollisions uavs minDist) =
     (if length uavs < 2 then []
      else map GetSnapshot [0..<length uavs] @
           writesOf (map getSnapshot uavs) minDist (pairOrder (length uavs))) \<and>
   (\<forall>k<length uavs. fst (checkAndResolveCollisions uavs minDist) ! k =
      (case lastPartner (map getSnapshot uavs) minDist (pairOrder (length uavs)) k of
         None \<Rightarrow> uavs ! k
       | Some j \<Rightarrow> (uavs ! k)\<lparr>velocity := velocity (uavs ! j)\<rparr>))"
proof (cases "length uavs < 2")
  case True
  then show ?thesis
    by (simp add: checkAndResolveCollisions_def pairOrder_small lastPartner_Nil)
next
  case False
  let ?snaps = "map getSnapshot uavs"
  let ?n = "length uavs"
  have side: "\<forall>(i, j)\<in>set (pairsFrom ?n 0). i < ?n \<and> j < ?n \<and> i \<noteq> j"
    by (auto simp: set_pairsFrom)
  note F = fold_resolvePair [OF side, of ?snaps minDist "map GetSnapshot [0..<?n]"]
  have v: "\<And>k j. lastPartner ?snaps minDist (pairOrder ?n) k = Some j \<Longrightarrow>
             vel (?snaps ! j) = velocity (uavs ! j)"
  proof -
    fix k j assume "lastPartner ?snaps minDist (pairOrder ?n) k = Some j"
    from lastPartner_Some [OF this] have "j < ?n"
      by (auto simp: pairOrder_def set_pairsFrom)
    then show "vel (?snaps ! j) = velocity (uavs ! j)" by (simp add: getSnapshot_def)
  qed
  from False F v show ?thesis
    by (auto simp: checkAndResolveCollisions_def outerLoop_fold pairOrder_def Let_def split: option.splits)
qed

lemma tooClose_snapshots:
  "i < length uavs \<Longrightarrow> j < length uavs \<Longrightarrow>
   tooClose (map getSnapshot uavs) minDist i j =
     (distance (position (uavs ! i)) (position (uavs ! j)) < minDist)"
  by (simp add: tooClose_def getSnapshot_def)

lemma pass_keeps_rest:
  assumes "k < length uavs"
  shows "position (fst (checkAndResolveCollisions uavs minDist) ! k) = position (uavs ! k) \<and>
         acceleration (fst (checkAndResolveCollisions uavs minDist) ! k) = acceleration (uavs ! k) \<and>
         cfg (fst (checkAndResolveCollisions uavs minDist) ! k) = cfg (uavs ! k) \<and>
         ctrlState (fst (checkAndResolveCollisions uavs minDist) ! k) = ctrlState (uavs ! k) \<and>
         pids (fst (checkAndResolveCollisions uavs minDist) ! k) = pids (uavs ! k)"
  using assms pass_result [of uavs minDist]
  by (simp split: option.splits)

subsection \<open>One pair too close\<close>

text \<open>
  C6: after one call to the collision pass on a collection of agents, if exactly one pair
  of agents \<open>a < b\<close> has snapshotted distance below \<open>minDist\<close>, then the velocity of \<open>a\<close>
  is the pre-call velocity of \<open>b\<close> and the velocity of \<open>b\<close> the pre-call velocity of
  \<open>a\<close>; every agent not within \<open>minDist\<close> of any other is unchanged, which are here the
  agents other than \<open>a\<close> and \<open>b\<close>; and no agent's position is changed by the pass.
\<close>

theorem single_pair_swap:
  assumes "a < b" and "b < length uavs"
    and "distance (position (uavs ! a)) (position (uavs ! b)) < minDist"
    and "\<forall>i j. i < j \<and> j < length uavs \<and>
           distance (position (uavs ! i)) (position (uavs ! j)) < minDist \<longrightarrow> i = a \<and> j = b"
  shows "case checkAndResolveCollisions uavs minDist of (uavs', calls) \<Rightarrow>
           length uavs' = length uavs \<and>
           velocity (uavs' ! a) = velocity (uavs ! b) \<and>
           velocity (uavs' ! b) = velocity (uavs ! a) \<and>
           (\<forall>k<length uavs.
              (\<forall>j<length uavs. j \<noteq> k \<longrightarrow>
                 \<not> distance (position (uavs ! k)) (position (uavs ! j)) < minDist) \<longrightarrow>
              uavs' ! k = uavs ! k) \<and>
           (\<forall>k<length uavs. k \<noteq> a \<and> k \<noteq> b \<longrightarrow> uavs' ! k = uavs ! k) \<and>
           map position uavs' = map position uavs"
proof -
  let ?snaps = "map getSnapshot uavs"
  let ?n = "length uavs"
  let ?ps = "pairOrder ?n"
  let ?R = "fst (checkAndResolveCollisions uavs minDist)"
  note R = pass_result [of uavs minDist]
  have mem: "\<And>i j. ((i, j) \<in> set ?ps) = (i < j \<and> j < ?n)"
    by (auto simp: pairOrder_def set_pairsFrom)
  have only: "\<And>i j. (i, j) \<in> set ?ps \<Longrightarrow> tooClose ?snaps minDist i j \<Longrightarrow> i = a \<and> j = b"
    using assms(4) by (auto simp: mem tooClose_snapshots)
  have ab: "(a, b) \<in> set ?ps" "tooClose ?snaps minDist a b"
    using assms(1-3) by (simp_all add: mem tooClose_snapshots)
  have la: "lastPartner ?snaps minDist ?ps a = Some b"
  proof (cases "lastPartner ?snaps minDist ?ps a")
    case None
    with ab show ?thesis by (auto simp: lastPartner_None)
  next
    case (Some j)
    from lastPartner_Some [OF Some] only assms(1) have "j = b" by (auto simp: mem)
    with Some show ?thesis by simp
  qed
  have lb: "lastPartner ?snaps minDist ?ps b = Some a"
  proof (cases "lastPartner ?snaps minDist ?ps b")
    case None
    with ab show ?thesis by (auto simp: lastPartner_None)
  next
    case (Some j)
    from lastPartner_Some [OF Some] only assms(1) have "j = a" by (auto simp: mem)
    with Some show ?thesis by simp
  qed
  have lo: "\<And>k. k \<noteq> a \<Longrightarrow> k \<noteq> b \<Longrightarrow> lastPartner ?snaps minDist ?ps k = None"
    using only by (auto simp: lastPartner_None)
  have li: "\<And>k. k < ?n \<Longrightarrow>
        \<forall>j<?n. j \<noteq> k \<longrightarrow> \<not> distance (position (uavs ! k)) (position (uavs ! j)) < minDist \<Longrightarrow>
        lastPartner ?snaps minDist ?ps k = None"
  proof -
    fix k assume k: "k < ?n"
      and iso: "\<forall>j<?n. j \<noteq> k \<longrightarrow> \<not> distance (position (uavs ! k)) (position (uavs ! j)) < minDist"
    from assms(1,2) have "a < ?n" by simp
    with iso assms(1-3) have "k \<noteq> a" "k \<noteq> b"
      by (auto simp: distance_commute [of "position (uavs ! b)"])
    then show "lastPartner ?snaps minDist ?ps k = None" by (rule lo)
  qed
  from assms(1,2) have an: "a < ?n" by simp
  from R have len: "length ?R = ?n" by simp
  have pos: "map position ?R = map position uavs"
    by (intro nth_equalityI) (simp_all add: len pass_keeps_rest)
  from R la lb lo li an assms(2) pos show ?thesis
    by (simp add: case_prod_beta)
qed


theorem single_pair_swap_witness:
  "(0::nat) < 1 \<and>
   1 < length [(UAV (Vec3 0 0 0) defaultConfig)\<lparr>velocity := Vec3 1 0 0\<rparr>,
               (UAV (Vec3 0 0 (5/1000)) defaultConfig)\<lparr>velocity := Vec3 0 1 0\<rparr>,
               (UAV (Vec3 0 0 10) defaultConfig)\<lparr>velocity := Vec3 0 0 1\<rparr>] \<and>
   distance (position ([(UAV (Vec3 0 0 0) defaultConfig)\<lparr>velocity := Vec3 1 0 0\<rparr>,
               (UAV (Vec3 0 0 (5/1000)) defaultConfig)\<lparr>velocity := Vec3 0 1 0\<rparr>,
               (UAV (Vec3 0 0 10) defaultConfig)\<lparr>velocity := Vec3 0 0 1\<rparr>] ! 0))
            (position ([(UAV (Vec3 0 0 0) defaultConfig)\<lparr>velocity := Vec3 1 0 0\<rparr>,
               (UAV (Vec3 0 0 (5/1000)) defaultConfig)\<lparr>velocity := Vec3 0 1 0\<rparr>,
               (UAV (Vec3 0 0 10) defaultConfig)\<lparr>velocity := Vec3 0 0 1\<rparr>] ! 1)) < 1/100 \<and>
   (case checkAndResolveCollisions
           [(UAV (Vec3 0 0 0) defaultConfig)\<lparr>velocity := Vec3 1 0 0\<rparr>,
            (UAV (Vec3 0 0 (5/1000)) defaultConfig)\<lparr>velocity := Vec3 0 1 0\<rparr>,
            (UAV (Vec3 0 0 10) defaultConfig)\<lparr>velocity := Vec3 0 0 1\<rparr>] (1/100) of
      (uavs', calls) \<Rightarrow>
        velocity (uavs' ! 0) = Vec3 0 1 0 \<and> velocity (uavs' ! 1) = Vec3 1 0 0 \<and>
        velocity (uavs' ! 2) = Vec3 0 0 1 \<and>
        map position uavs' = [Vec3 0 0 0, Vec3 0 0 (5/1000), Vec3 0 0 10])"
proof -
  let ?U = "[(UAV (Vec3 0 0 0) defaultConfig)\<lparr>velocity := Vec3 1 0 0\<rparr>,
            (UAV (Vec3 0 0 (5/1000)) defaultConfig)\<lparr>velocity := Vec3 0 1 0\<rparr>,
            (UAV (Vec3 0 0 10) defaultConfig)\<lparr>velocity := Vec3 0 0 1\<rparr>]"
  have h1: "(0::nat) < 1" by simp
  have h2: "1 < length ?U" by simp
  have h3: "distance (position (?U ! 0)) (position (?U ! 1)) < 1/100"
    by (simp add: UAV_def distance_def vsub_def mag_axis)
  have h4: "\<forall>i j. i < j \<and> j < length ?U \<and>
           distance (position (?U ! i)) (position (?U ! j)) < 1/100 \<longrightarrow> i = 0 \<and> j = 1"
    by (auto simp: UAV_def distance_def vsub_def mag_axis nth_Cons' less_Suc_eq)
  from single_pair_swap [OF h1 h2 h3 h4] h1 h2 h3 show ?thesis
    by (simp add: case_prod_beta UAV_def)
qed

subsection \<open>Snapshots only, and the last partner\<close>

text \<open>On the snapshots of the agents, the test of the pass is the Euclidean one.\<close>

lemma tooClose_withinMinDistance:
  "i < length uavs \<Longrightarrow> j < length uavs \<Longrightarrow>
   tooClose (map getSnapshot uavs) minDist i j = withinMinDistance uavs minDist i j"
  by (simp add: tooClose_def getSnapshot_def withinMinDistance_def distance_def mag_def vsub_def
      power2_eq_square)

lemma collidingPairs_closePairs:
  "collidingPairs (map getSnapshot uavs) minDist (pairOrder (length uavs)) = closePairs uavs minDist"
  unfolding collidingPairs_def closePairs_def
  by (rule filter_cong) (auto simp: pairOrder_def set_pairsFrom tooClose_withinMinDistance)

lemma lastPartner_lastClosePartner:
  "lastPartner (map getSnapshot uavs) minDist (pairOrder (length uavs)) k =
     lastClosePartner uavs minDist k"
  by (simp add: lastPartner_def lastClosePartner_def collidingPairs_closePairs)

lemma writesOf_velocityWrites:
  "writesOf (map getSnapshot uavs) minDist (pairOrder (length uavs)) = velocityWrites uavs minDist"
proof -
  have "map (\<lambda>(i, j). [SetVelocity i (vel (map getSnapshot uavs ! j)),
                         SetVelocity j (vel (map getSnapshot uavs ! i))]) (closePairs uavs minDist) =
        map (\<lambda>(i, j). [SetVelocity i (velocity (uavs ! j)), SetVelocity j (velocity (uavs ! i))])
          (closePairs uavs minDist)"
    by (rule map_cong) (auto simp: closePairs_def pairOrder_def set_pairsFrom getSnapshot_def)
  then show ?thesis
    unfolding writesOf_def velocityWrites_def collidingPairs_closePairs by (rule arg_cong)
qed

lemma withinMinDistance_vertical:
  "vx (position (uavs ! i)) = vx (position (uavs ! j)) \<Longrightarrow>
   vy (position (uavs ! i)) = vy (position (uavs ! j)) \<Longrightarrow>
   withinMinDistance uavs minDist i j =
     (\<bar>vz (position (uavs ! i)) - vz (position (uavs ! j))\<bar> < minDist)"
  by (simp add: withinMinDistance_def)

text \<open>
  C9: within one call to the collision pass, the pass first takes one snapshot of every
  agent; every later call on an agent is a velocity write, two for each pair \<open>(i, j)\<close>,
  \<open>i < j\<close>, whose positions before the pass are at Euclidean distance below \<open>minDist\<close>,
  in the iteration order of the pairs, and every velocity written is the velocity the
  partner had before the pass, never a velocity written earlier in the pass. So an agent
  ends the pass unchanged when no agent was within \<open>minDist\<close> of it, and otherwise with
  the pre-pass velocity of its last partner in the iteration order over the close pairs,
  and nothing else changed.
\<close>

theorem pass_uses_snapshots:
  "case checkAndResolveCollisions uavs minDist of (uavs', calls) \<Rightarrow>
     length uavs' = length uavs \<and>
     calls = (if length uavs < 2 then []
              else map GetSnapshot [0..<length uavs] @ velocityWrites uavs minDist) \<and>
     (\<forall>k<length uavs.
        case lastClosePartner uavs minDist k of
          None \<Rightarrow> uavs' ! k = uavs ! k
        | Some j \<Rightarrow> j < length uavs \<and> j \<noteq> k \<and>
                   uavs' ! k = (uavs ! k)\<lparr>velocity := velocity (uavs ! j)\<rparr>)"
proof -
  have "\<And>k j. lastPartner (map getSnapshot uavs) minDist (pairOrder (length uavs)) k = Some j
          \<Longrightarrow> j < length uavs \<and> j \<noteq> k"
  proof -
    fix k j
    assume "lastPartner (map getSnapshot uavs) minDist (pairOrder (length uavs)) k = Some j"
    from lastPartner_Some [OF this] show "j < length uavs \<and> j \<noteq> k"
      by (auto simp: pairOrder_def set_pairsFrom)
  qed
  with pass_result [of uavs minDist] show ?thesis
    unfolding lastPartner_lastClosePartner writesOf_velocityWrites
    by (simp add: case_prod_beta split: option.splits)
qed

theorem pass_uses_snapshots_witness:
  "(case checkAndResolveCollisions
           [(UAV (Vec3 0 0 0) defaultConfig)\<lparr>velocity := Vec3 1 0 0\<rparr>,
            (UAV (Vec3 0 0 (1/200)) defaultConfig)\<lparr>velocity := Vec3 0 1 0\<rparr>,
            (UAV (Vec3 0 0 (1/125)) defaultConfig)\<lparr>velocity := Vec3 0 0 1\<rparr>,
            (UAV (Vec3 0 0 10) defaultConfig)\<lparr>velocity := Vec3 7 7 7\<rparr>] (1/100) of
      (uavs', calls) \<Rightarrow>
        map velocity uavs' = [Vec3 0 0 1, Vec3 0 0 1, Vec3 0 1 0, Vec3 7 7 7] \<and>
        calls = [GetSnapshot 0, GetSnapshot 1, GetSnapshot 2, GetSnapshot 3,
                 SetVelocity 0 (Vec3 0 1 0), SetVelocity 1 (Vec3 1 0 0),
                 SetVelocity 0 (Vec3 0 0 1), SetVelocity 2 (Vec3 1 0 0),
                 SetVelocity 1 (Vec3 0 0 1), SetVelocity 2 (Vec3 0 1 0)])"
proof -
  let ?U = "[(UAV (Vec3 0 0 0) defaultConfig)\<lparr>velocity := Vec3 1 0 0\<rparr>,
            (UAV (Vec3 0 0 (1/200)) defaultConfig)\<lparr>velocity := Vec3 0 1 0\<rparr>,
            (UAV (Vec3 0 0 (1/125)) defaultConfig)\<lparr>velocity := Vec3 0 0 1\<rparr>,
            (UAV (Vec3 0 0 10) defaultConfig)\<lparr>velocity := Vec3 7 7 7\<rparr>]"
  have po: "pairOrder 4 = [(0, 1), (0, 2), (0, 3), (1, 2), (1, 3), (2, 3)]"
    by code_simp
  have len: "length ?U = 4" by simp
  have cp: "closePairs ?U (1/100) = [(0, 1), (0, 2), (1, 2)]"
    unfolding closePairs_def len po
    by (simp add: UAV_def withinMinDistance_vertical)
  have up: "[0..<4] = [0, 1, 2, 3::nat]"
    by code_simp
  have vw: "velocityWrites ?U (1/100) =
      [SetVelocity 0 (Vec3 0 1 0), SetVelocity 1 (Vec3 1 0 0),
       SetVelocity 0 (Vec3 0 0 1), SetVelocity 2 (Vec3 1 0 0),
       SetVelocity 1 (Vec3 0 0 1), SetVelocity 2 (Vec3 0 1 0)]"
    unfolding velocityWrites_def cp by simp
  have lp: "lastClosePartner ?U (1/100) 0 = Some 2" "lastClosePartner ?U (1/100) 1 = Some 2"
    "lastClosePartner ?U (1/100) 2 = Some 1" "lastClosePartner ?U (1/100) 3 = None"
    unfolding lastClosePartner_def cp by simp_all
  let ?R = "checkAndResolveCollisions ?U (1/100)"
  note T = pass_uses_snapshots [of ?U "1/100", unfolded case_prod_beta]
  from T have l: "length (fst ?R) = length ?U"
    by (rule conjunct1)
  from T have c: "snd ?R = (if length ?U < 2 then []
              else map GetSnapshot [0..<length ?U] @ velocityWrites ?U (1/100))"
    by (rule conjunct1 [OF conjunct2])
  from T have a: "\<forall>k<length ?U.
        case lastClosePartner ?U (1/100) k of
          None \<Rightarrow> fst ?R ! k = ?U ! k
        | Some j \<Rightarrow> j < length ?U \<and> j \<noteq> k \<and>
                   fst ?R ! k = (?U ! k)\<lparr>velocity := velocity (?U ! j)\<rparr>"
    by (rule conjunct2 [OF conjunct2])
  have v0: "velocity (fst ?R ! 0) = Vec3 0 0 1"
    using a [unfolded len, rule_format, of 0] unfolding lp by (simp add: UAV_def)
  have v1: "velocity (fst ?R ! 1) = Vec3 0 0 1"
    using a [unfolded len, rule_format, of 1] unfolding lp by (simp add: UAV_def)
  have v2: "velocity (fst ?R ! 2) = Vec3 0 1 0"
    using a [unfolded len, rule_format, of 2] unfolding lp by (simp add: UAV_def)
  have v3: "velocity (fst ?R ! 3) = Vec3 7 7 7"
    using a [unfolded len, rule_format, of 3] unfolding lp by (simp add: UAV_def)
  note v = v0 v1 v2 v3
  have four: "\<And>i. i < 4 \<Longrightarrow> i = 0 \<or> i = 1 \<or> i = 2 \<or> i = (3::nat)" by arith
  from l v have mv: "map velocity (fst ?R) = [Vec3 0 0 1, Vec3 0 0 1, Vec3 0 1 0, Vec3 7 7 7]"
    unfolding len by (intro nth_equalityI) (auto dest!: four)
  from c have cs: "snd ?R = map GetSnapshot [0, 1, 2, 3] @ velocityWrites ?U (1/100)"
    unfolding len up by simp
  from mv cs show ?thesis
    unfolding vw by (simp add: case_prod_beta)
qed

subsection \<open>Fewer than two agents\<close>

text \<open>
  C10: called with fewer than two agents (an empty or a singleton collection), the pass
  returns at once: the collection is returned as it is, so every position, velocity and
  acceleration is unchanged, and no call is made on any agent (no snapshot, no velocity
  write).
\<close>

theorem small_collection_untouched:
  "length uavs < 2 \<Longrightarrow> checkAndResolveCollisions uavs minDist = (uavs, [])"
  by (simp add: checkAndResolveCollisions_def)

theorem small_collection_untouched_witness:
  "length [UAV (Vec3 1 2 0) defaultConfig] < 2 \<and>
   checkAndResolveCollisions [UAV (Vec3 1 2 0) defaultConfig] (1/100) =
     ([UAV (Vec3 1 2 0) defaultConfig], []) \<and>
   length ([] :: UAV list) < 2 \<and> checkAndResolveCollisions [] (1/100) = ([], [])"
  using small_collection_untouched [of "[UAV (Vec3 1 2 0) defaultConfig]" "1/100"]
    small_collection_untouched [of "[]" "1/100"]
  by simp

end
